theory Spec2Isabelle
  imports Complex_Main "HOL-Library.Multiset"
begin

section \<open>Data model (types.ts)\<close>

text \<open>
  A JavaScript \<^verbatim>\<open>number\<close> is modelled as a real: the values that occur here are clock
  readings (\<^verbatim>\<open>Date.now()\<close>), screen coordinates, widths and draws of
  \<^verbatim>\<open>Math.random()\<close>; NaN and the infinities are left out.
  A JavaScript string is a \<^typ>\<open>string\<close>.
  Record fields carry a prefix naming their interface, since \<^verbatim>\<open>id\<close>,
  \<^verbatim>\<open>userId\<close> and \<^verbatim>\<open>timestamp\<close> occur in several interfaces.
\<close>

type_synonym number = real

type_synonym Point = "number \<times> number"

record Stroke =
  stroke_id :: string
  stroke_userId :: string
  stroke_color :: string
  stroke_width :: number
  stroke_points :: "Point list"
  stroke_isFinished :: bool
  stroke_timestamp :: "number option"

datatype DrawingActionType = STROKE_DRAW | STROKE_ERASE | CLEAR_ALL

record DrawingAction =
  action_id :: string
  action_type :: DrawingActionType
  action_userId :: string
  action_timestamp :: number
  action_data :: Stroke

record User =
  user_id :: string
  user_color :: string
  user_name :: string

record CursorPosition =
  cursor_userId :: string
  cursor_x :: number
  cursor_y :: number
  cursor_color :: string
  cursor_name :: string

section \<open>HistoryStore\<close>

text \<open>
  The two private arrays of the class. \<^verbatim>\<open>push\<close> appends at the end and
  \<^verbatim>\<open>pop\<close> removes the last element, so both arrays are lists in array order.
  \<^verbatim>\<open>randomUUID()\<close> and \<^verbatim>\<open>Date.now()\<close> are inputs of the operations that
  call them.
\<close>

record HistoryStore =
  history :: "DrawingAction list"
  redoStack :: "DrawingAction list"

definition new_HistoryStore :: HistoryStore where
  "new_HistoryStore = \<lparr>history = [], redoStack = []\<rparr>"

definition addStroke :: "Stroke \<Rightarrow> string \<Rightarrow> number \<Rightarrow> HistoryStore \<Rightarrow> DrawingAction \<times> HistoryStore" where
  "addStroke stroke uuid now hs =
     (let action = \<lparr>action_id = uuid, action_type = STROKE_DRAW,
                     action_userId = stroke_userId stroke, action_timestamp = now,
                     action_data = stroke\<rparr>;
          hs1 = hs\<lparr>history := history hs @ [action]\<rparr>;
          hs2 = hs1\<lparr>redoStack := []\<rparr>
      in (action, hs2))"

definition addErase :: "Stroke \<Rightarrow> string \<Rightarrow> number \<Rightarrow> HistoryStore \<Rightarrow> DrawingAction \<times> HistoryStore" where
  "addErase stroke uuid now hs =
     (let action = \<lparr>action_id = uuid, action_type = STROKE_ERASE,
                     action_userId = stroke_userId stroke, action_timestamp = now,
                     action_data = stroke\<rparr>;
          hs1 = hs\<lparr>history := history hs @ [action]\<rparr>;
          hs2 = hs1\<lparr>redoStack := []\<rparr>
      in (action, hs2))"

text \<open>\<^verbatim>\<open>undo\<close> and \<^verbatim>\<open>redo\<close> return the history array itself, after the update.\<close>

definition undo :: "HistoryStore \<Rightarrow> DrawingAction list \<times> HistoryStore" where
  "undo hs =
     (if length (history hs) = 0 then (history hs, hs)
      else let lastAction = last (history hs);
               hs1 = hs\<lparr>history := butlast (history hs)\<rparr>;
               hs2 = hs1\<lparr>redoStack := redoStack hs1 @ [lastAction]\<rparr>
           in (history hs2, hs2))"

definition redo :: "HistoryStore \<Rightarrow> DrawingAction list \<times> HistoryStore" where
  "redo hs =
     (if length (redoStack hs) = 0 then (history hs, hs)
      else let action = last (redoStack hs);
               hs1 = hs\<lparr>redoStack := butlast (redoStack hs)\<rparr>;
               hs2 = hs1\<lparr>history := history hs1 @ [action]\<rparr>
           in (history hs2, hs2))"

definition getHistory :: "HistoryStore \<Rightarrow> DrawingAction list" where
  "getHistory hs = history hs"

definition clear :: "HistoryStore \<Rightarrow> HistoryStore" where
  "clear hs = hs\<lparr>history := [], redoStack := []\<rparr>"

definition getHistoryLength :: "HistoryStore \<Rightarrow> nat" where
  "getHistoryLength hs = length (history hs)"

text \<open>
  \<^verbatim>\<open>getCurrentState\<close> keeps the draw and erase actions, takes their strokes and
  sorts them with the comparator \<^verbatim>\<open>(a.timestamp ?? 0) - (b.timestamp ?? 0)\<close>.
  \<^verbatim>\<open>Array.prototype.sort\<close> is stable, and on numbers this comparator orders by
  the key \<open>stroke_time\<close>, so the call is the stable sort by that key.
\<close>

definition isDrawOrErase :: "DrawingAction \<Rightarrow> bool" where
  "isDrawOrErase action =
     (action_type action = STROKE_DRAW \<or> action_type action = STROKE_ERASE)"

definition stroke_time :: "Stroke \<Rightarrow> number" where
  "stroke_time s = (case stroke_timestamp s of None \<Rightarrow> 0 | Some t \<Rightarrow> t)"

definition getCurrentState :: "HistoryStore \<Rightarrow> Stroke list" where
  "getCurrentState hs =
     sort_key stroke_time (map action_data (filter isDrawOrErase (history hs)))"

definition getAction :: "string \<Rightarrow> HistoryStore \<Rightarrow> DrawingAction option" where
  "getAction actionId hs = find (\<lambda>action. action_id action = actionId) (history hs)"

definition getHistorySince :: "number \<Rightarrow> HistoryStore \<Rightarrow> DrawingAction list" where
  "getHistorySince timestamp hs =
     filter (\<lambda>action. action_timestamp action > timestamp) (history hs)"

section \<open>Client: redrawAll (main.ts) over the CanvasManager\<close>

text \<open>
  The canvas is modelled by the strokes painted on it since it was last cleared, in
  painting order, each with its eraser flag. \<^verbatim>\<open>drawStroke\<close> returns at once on a
  stroke without points. \<^verbatim>\<open>redrawAll\<close> clears the canvas, sorts the draw and
  erase actions of the client's copy of the history with the comparator
  \<^verbatim>\<open>(a.timestamp || 0) - (b.timestamp || 0)\<close> and paints them in that order.
\<close>

type_synonym Canvas = "(Stroke \<times> bool) list"

definition canvas_clear :: "Canvas \<Rightarrow> Canvas" where
  "canvas_clear cv = []"

definition drawStroke :: "Stroke \<Rightarrow> bool \<Rightarrow> Canvas \<Rightarrow> Canvas" where
  "drawStroke stroke isEraser cv =
     (if length (stroke_points stroke) < 1 then cv else cv @ [(stroke, isEraser)])"

definition action_time :: "DrawingAction \<Rightarrow> number" where
  "action_time a = (if action_timestamp a = 0 then 0 else action_timestamp a)"

definition sortedActions :: "DrawingAction list \<Rightarrow> DrawingAction list" where
  "sortedActions hist = sort_key action_time (filter isDrawOrErase hist)"

definition redrawAll :: "DrawingAction list \<Rightarrow> Canvas \<Rightarrow> Canvas" where
  "redrawAll hist cv =
     foldl (\<lambda>c action. drawStroke (action_data action) (action_type action = STROKE_ERASE) c)
       (canvas_clear cv) (sortedActions hist)"

section \<open>JavaScript Map\<close>

text \<open>
  A \<^verbatim>\<open>Map\<close> keeps its entries in insertion order; \<^verbatim>\<open>set\<close> on a key that
  is present replaces the value in place, \<^verbatim>\<open>delete\<close> removes the entry.
  Keys are unique in every map built by these operations from \<open>[]\<close>.
\<close>

type_synonym ('k, 'v) JsMap = "('k \<times> 'v) list"

fun Map_get :: "('k, 'v) JsMap \<Rightarrow> 'k \<Rightarrow> 'v option" where
  "Map_get [] k = None"
| "Map_get ((k', v) # m) k = (if k' = k then Some v else Map_get m k)"

fun Map_set :: "('k, 'v) JsMap \<Rightarrow> 'k \<Rightarrow> 'v \<Rightarrow> ('k, 'v) JsMap" where
  "Map_set [] k v = [(k, v)]"
| "Map_set ((k', v') # m) k v = (if k' = k then (k, v) # m else (k', v') # Map_set m k v)"

fun Map_delete :: "('k, 'v) JsMap \<Rightarrow> 'k \<Rightarrow> ('k, 'v) JsMap" where
  "Map_delete [] k = []"
| "Map_delete ((k', v') # m) k = (if k' = k then m else (k', v') # Map_delete m k)"

definition Map_has :: "('k, 'v) JsMap \<Rightarrow> 'k \<Rightarrow> bool" where
  "Map_has m k = (Map_get m k \<noteq> None)"

definition Map_values :: "('k, 'v) JsMap \<Rightarrow> 'v list" where
  "Map_values m = map snd m"

text \<open>A string is falsy exactly when it is empty; \<^verbatim>\<open>undefined\<close> is falsy.\<close>

definition truthy :: "string option \<Rightarrow> bool" where
  "truthy v = (case v of None \<Rightarrow> False | Some s \<Rightarrow> s \<noteq> [])"

section \<open>RoomManager\<close>

text \<open>
  \<^verbatim>\<open>User\<close> objects are shared: \<^verbatim>\<open>addUserToRoom\<close> stores one object both in
  the room's \<^verbatim>\<open>users\<close> map and in \<^verbatim>\<open>socketToUser\<close>, and
  \<^verbatim>\<open>updateUserName\<close> mutates it. The objects therefore live in a store
  (\<open>heap\<close>, indexed by allocation order) and the maps hold references.
  The \<^verbatim>\<open>Room\<close> interface is declared in the server's types module; its fields are
  those of the object literal in \<^verbatim>\<open>createRoom\<close>.
\<close>

type_synonym ref = nat

record Room =
  room_id :: string
  room_name :: string
  room_users :: "(string, ref) JsMap"
  room_history :: "DrawingAction list"
  room_historyIndex :: nat

record RoomManager =
  rooms :: "(string, Room) JsMap"
  userToRoom :: "(string, string) JsMap"
  socketToUser :: "(string, ref) JsMap"
  heap :: "User list"

definition createRoom :: "string \<Rightarrow> string \<Rightarrow> RoomManager \<Rightarrow> Room \<times> RoomManager" where
  "createRoom roomId roomName rm =
     (let room = \<lparr>room_id = roomId, room_name = roomName, room_users = [],
                   room_history = [], room_historyIndex = 0\<rparr>
      in (room, rm\<lparr>rooms := Map_set (rooms rm) roomId room\<rparr>))"

definition new_RoomManager :: RoomManager where
  "new_RoomManager =
     snd (createRoom ''main'' ''Main Canvas''
            \<lparr>rooms = [], userToRoom = [], socketToUser = [], heap = []\<rparr>)"

definition getRoom :: "RoomManager \<Rightarrow> string \<Rightarrow> Room option" where
  "getRoom rm roomId = Map_get (rooms rm) roomId"

definition getAllRooms :: "RoomManager \<Rightarrow> Room list" where
  "getAllRooms rm = Map_values (rooms rm)"

text \<open>
  \<^verbatim>\<open>generateRandomColor\<close>: six rounds, each appending
  \<^verbatim>\<open>letters[Math.floor(Math.random() * 16)]\<close>. The argument \<open>rnd i\<close> is the
  value of the \<open>i\<close>-th call of \<^verbatim>\<open>Math.random()\<close>. Indexing a string out of
  range gives \<^verbatim>\<open>undefined\<close>, which \<^verbatim>\<open>+=\<close> appends as the text "undefined".
\<close>

definition letters :: string where
  "letters = ''0123456789ABCDEF''"

definition letter_at :: "int \<Rightarrow> string" where
  "letter_at k = (if 0 \<le> k \<and> k < int (length letters) then [letters ! nat k] else ''undefined'')"

function color_loop :: "(nat \<Rightarrow> number) \<Rightarrow> nat \<Rightarrow> string \<Rightarrow> string" where
  "color_loop rnd i color =
     (if i < 6 then color_loop rnd (i + 1) (color @ letter_at \<lfloor>rnd i * 16\<rfloor>) else color)"
  by pat_completeness auto
termination
  by (relation "measure (\<lambda>(rnd, i, color). 6 - i)") auto

declare color_loop.simps [simp del]

definition generateRandomColor :: "(nat \<Rightarrow> number) \<Rightarrow> string" where
  "generateRandomColor rnd = color_loop rnd 0 ''#''"

datatype error = Error string

text \<open>
  \<^verbatim>\<open>addUserToRoom\<close> throws when the room is unknown; otherwise it allocates the
  user object and returns a reference to it. The room object is updated in place,
  which is \<open>Map_set\<close> of the updated room under its existing key.
\<close>

definition addUserToRoom ::
    "string \<Rightarrow> string \<Rightarrow> (nat \<Rightarrow> number) \<Rightarrow> RoomManager \<Rightarrow> error + (ref \<times> RoomManager)" where
  "addUserToRoom socketId roomId rnd rm =
     (case getRoom rm roomId of
        None \<Rightarrow> Inl (Error (''Room '' @ roomId @ '' not found''))
      | Some room \<Rightarrow>
          let color = generateRandomColor rnd;
              user = \<lparr>user_id = socketId, user_color = color,
                      user_name = ''User-'' @ take 5 socketId\<rparr>;
              r = length (heap rm);
              room' = room\<lparr>room_users := Map_set (room_users room) socketId r\<rparr>
          in Inr (r, rm\<lparr>rooms := Map_set (rooms rm) roomId room',
                        userToRoom := Map_set (userToRoom rm) socketId roomId,
                        socketToUser := Map_set (socketToUser rm) socketId r,
                        heap := heap rm @ [user]\<rparr>))"

definition removeUser :: "string \<Rightarrow> RoomManager \<Rightarrow> RoomManager" where
  "removeUser socketId rm =
     (let roomId = Map_get (userToRoom rm) socketId;
          rm1 = (if truthy roomId then
                   (let rm0 = (case getRoom rm (the roomId) of
                                 None \<Rightarrow> rm
                               | Some room \<Rightarrow>
                                   rm\<lparr>rooms := Map_set (rooms rm) (the roomId)
                                      (room\<lparr>room_users := Map_delete (room_users room) socketId\<rparr>)\<rparr>)
                    in rm0\<lparr>userToRoom := Map_delete (userToRoom rm0) socketId\<rparr>)
                 else rm)
      in rm1\<lparr>socketToUser := Map_delete (socketToUser rm1) socketId\<rparr>)"

definition getUser :: "RoomManager \<Rightarrow> string \<Rightarrow> User option" where
  "getUser rm socketId = map_option (\<lambda>r. heap rm ! r) (Map_get (socketToUser rm) socketId)"

definition getUsersInRoom :: "RoomManager \<Rightarrow> string \<Rightarrow> User list" where
  "getUsersInRoom rm roomId =
     (case getRoom rm roomId of
        None \<Rightarrow> []
      | Some room \<Rightarrow> map (\<lambda>r. heap rm ! r) (Map_values (room_users room)))"

definition getRoomIdForUser :: "RoomManager \<Rightarrow> string \<Rightarrow> string option" where
  "getRoomIdForUser rm socketId = Map_get (userToRoom rm) socketId"

definition getRoomForUser :: "RoomManager \<Rightarrow> string \<Rightarrow> Room option" where
  "getRoomForUser rm socketId =
     (let roomId = Map_get (userToRoom rm) socketId
      in if \<not> truthy roomId then None else getRoom rm (the roomId))"

definition updateUserName :: "string \<Rightarrow> string \<Rightarrow> RoomManager \<Rightarrow> RoomManager" where
  "updateUserName socketId name rm =
     (case Map_get (socketToUser rm) socketId of
        None \<Rightarrow> rm
      | Some r \<Rightarrow> rm\<lparr>heap := (heap rm)[r := (heap rm ! r)\<lparr>user_name := name\<rparr>]\<rparr>)"

section \<open>Server (index.ts)\<close>

text \<open>
  The server holds the room manager and one \<^verbatim>\<open>HistoryStore\<close> per room id.
  Each connection has its own variable \<^verbatim>\<open>currentRoomId\<close>, undefined at first;
  the model keys these variables by socket id.
\<close>

record Server =
  roomManager :: RoomManager
  roomHistories :: "(string, HistoryStore) JsMap"
  currentRoomId :: "string \<Rightarrow> string option"

definition initial_Server :: Server where
  "initial_Server =
     \<lparr>roomManager = new_RoomManager,
      roomHistories = Map_set [] ''main'' new_HistoryStore,
      currentRoomId = (\<lambda>socketId. None)\<rparr>"

definition getHistoryStore ::
    "string \<Rightarrow> (string, HistoryStore) JsMap \<Rightarrow> HistoryStore \<times> (string, HistoryStore) JsMap" where
  "getHistoryStore roomId rh =
     (let rh' = (if \<not> Map_has rh roomId then Map_set rh roomId new_HistoryStore else rh)
      in (the (Map_get rh' roomId), rh'))"

text \<open>
  A handler fetches the store of a room and calls one method on it; the method
  mutates the store object that the map holds.
\<close>

definition with_store ::
    "string \<Rightarrow> (HistoryStore \<Rightarrow> 'r \<times> HistoryStore) \<Rightarrow> (string, HistoryStore) JsMap
       \<Rightarrow> 'r \<times> (string, HistoryStore) JsMap" where
  "with_store roomId method rh =
     (let (hs, rh1) = getHistoryStore roomId rh;
          (result, hs') = method hs
      in (result, Map_set rh1 roomId hs'))"

text \<open>
  What a handler does to the outside, in program order: calls of the socket library
  (\<^verbatim>\<open>socket.leave\<close>, \<^verbatim>\<open>socket.join\<close>, the four forms of \<^verbatim>\<open>emit\<close>), the
  call of the acknowledgement callback when the client supplied one, and console
  output. The targets are \<^verbatim>\<open>socket.emit\<close> (the requesting socket),
  \<^verbatim>\<open>io.to(room).emit\<close> (every socket of the room),
  \<^verbatim>\<open>socket.broadcast.to(room).emit\<close> (every socket of the room but the requesting
  one) and its \<^verbatim>\<open>volatile\<close> form.
\<close>

datatype level = LOG | WARN | ERROR

datatype payload =
    P_none
  | P_message string
  | P_history "DrawingAction list"
  | P_users "User list"
  | P_stroke Stroke
  | P_cursor CursorPosition

datatype target = Socket | Room string | Broadcast string | BroadcastVolatile string

datatype effect =
    Leave string
  | Join string
  | Emit target string payload
  | Ack payload
  | Console level

definition ack_call :: "bool \<Rightarrow> payload \<Rightarrow> effect list" where
  "ack_call ack p = (if ack then [Ack p] else [])"

definition on_join_room ::
    "string \<Rightarrow> string option \<Rightarrow> bool \<Rightarrow> (nat \<Rightarrow> number) \<Rightarrow> Server \<Rightarrow> Server \<times> effect list" where
  "on_join_room socketId roomIdArg callback rnd s =
     (let roomId = (case roomIdArg of None \<Rightarrow> ''main'' | Some r \<Rightarrow> r);
          left =
            (if truthy (currentRoomId s socketId) then
               Leave (the (currentRoomId s socketId)) #
               (let prevRoom = getRoomIdForUser (roomManager s) socketId
                in if truthy prevRoom
                   then [Emit (Room (the prevRoom)) ''users_update''
                           (P_users (getUsersInRoom (roomManager s) (the prevRoom)))]
                   else [])
             else [])
      in case addUserToRoom socketId roomId rnd (roomManager s) of
           Inl (Error message) \<Rightarrow>
             (s, left @ [Console ERROR] @ ack_call callback (P_message message))
         | Inr (user, rm') \<Rightarrow>
             (let (hs, rh') = getHistoryStore roomId (roomHistories s);
                  hist = getHistory hs;
                  roomUsers = getUsersInRoom rm' roomId
              in (s\<lparr>roomManager := rm', roomHistories := rh',
                    currentRoomId := (currentRoomId s)(socketId := Some roomId)\<rparr>,
                  left @ [Join roomId, Console LOG,
                          Emit Socket ''history_sync'' (P_history hist),
                          Emit (Room roomId) ''users_update'' (P_users roomUsers)]
                       @ ack_call callback P_none)))"

definition on_draw_line :: "string \<Rightarrow> Stroke \<Rightarrow> bool \<Rightarrow> Server \<Rightarrow> Server \<times> effect list" where
  "on_draw_line socketId data ack s =
     (if \<not> truthy (currentRoomId s socketId) then (s, [Console WARN])
      else (s, Emit (Broadcast (the (currentRoomId s socketId))) ''draw_line'' (P_stroke data)
               # ack_call ack P_none))"

definition on_draw_finish ::
    "string \<Rightarrow> Stroke \<Rightarrow> bool \<Rightarrow> string \<Rightarrow> number \<Rightarrow> Server \<Rightarrow> Server \<times> effect list" where
  "on_draw_finish socketId data ack uuid now s =
     (if \<not> truthy (currentRoomId s socketId) then (s, [])
      else let room = the (currentRoomId s socketId);
               (action, rh') = with_store room (addStroke data uuid now) (roomHistories s)
           in (s\<lparr>roomHistories := rh'\<rparr>, ack_call ack P_none))"

definition on_erase ::
    "string \<Rightarrow> Stroke \<Rightarrow> bool \<Rightarrow> string \<Rightarrow> number \<Rightarrow> Server \<Rightarrow> Server \<times> effect list" where
  "on_erase socketId data ack uuid now s =
     (if \<not> truthy (currentRoomId s socketId) then (s, [])
      else let room = the (currentRoomId s socketId);
               (action, rh') = with_store room (addErase data uuid now) (roomHistories s)
           in (s\<lparr>roomHistories := rh'\<rparr>,
               Emit (Broadcast room) ''erase'' (P_stroke data) # ack_call ack P_none))"

definition on_cursor_move :: "string \<Rightarrow> number \<Rightarrow> number \<Rightarrow> Server \<Rightarrow> Server \<times> effect list" where
  "on_cursor_move socketId px py s =
     (if \<not> truthy (currentRoomId s socketId) then (s, [])
      else case getUser (roomManager s) socketId of
             None \<Rightarrow> (s, [])
           | Some user \<Rightarrow>
               (let cursorData = \<lparr>cursor_userId = socketId, cursor_x = px, cursor_y = py,
                                   cursor_color = user_color user, cursor_name = user_name user\<rparr>
                in (s, [Emit (BroadcastVolatile (the (currentRoomId s socketId)))
                          ''cursor_update'' (P_cursor cursorData)])))"

definition on_undo :: "string \<Rightarrow> bool \<Rightarrow> Server \<Rightarrow> Server \<times> effect list" where
  "on_undo socketId ack s =
     (if \<not> truthy (currentRoomId s socketId) then (s, [])
      else let room = the (currentRoomId s socketId);
               (updatedHistory, rh') = with_store room undo (roomHistories s)
           in (s\<lparr>roomHistories := rh'\<rparr>,
               Emit (Room room) ''history_sync'' (P_history updatedHistory)
               # ack_call ack (P_history updatedHistory)))"

definition on_redo :: "string \<Rightarrow> bool \<Rightarrow> Server \<Rightarrow> Server \<times> effect list" where
  "on_redo socketId ack s =
     (if \<not> truthy (currentRoomId s socketId) then (s, [])
      else let room = the (currentRoomId s socketId);
               (updatedHistory, rh') = with_store room redo (roomHistories s)
           in (s\<lparr>roomHistories := rh'\<rparr>,
               Emit (Room room) ''history_sync'' (P_history updatedHistory)
               # ack_call ack (P_history updatedHistory)))"

definition on_clear_canvas :: "string \<Rightarrow> bool \<Rightarrow> Server \<Rightarrow> Server \<times> effect list" where
  "on_clear_canvas socketId ack s =
     (if \<not> truthy (currentRoomId s socketId) then (s, [])
      else let room = the (currentRoomId s socketId);
               (u, rh') = with_store room (\<lambda>hs. ((), clear hs)) (roomHistories s)
           in (s\<lparr>roomHistories := rh'\<rparr>,
               [Emit (Room room) ''canvas_cleared'' P_none,
                Emit (Room room) ''history_sync'' (P_history [])] @ ack_call ack P_none))"

definition on_disconnect :: "string \<Rightarrow> Server \<Rightarrow> Server \<times> effect list" where
  "on_disconnect socketId s =
     (if truthy (currentRoomId s socketId) then
        (let rm' = removeUser socketId (roomManager s);
             roomUsers = getUsersInRoom rm' (the (currentRoomId s socketId))
         in (s\<lparr>roomManager := rm'\<rparr>,
             [Console LOG,
              Emit (Room (the (currentRoomId s socketId))) ''users_update'' (P_users roomUsers)]))
      else (s, [Console LOG]))"

text \<open>The inbound events of one socket, with the values the handler reads from its environment.\<close>

datatype request =
    Join_room "string option" bool "nat \<Rightarrow> number"
  | Draw_line Stroke bool
  | Draw_finish Stroke bool string number
  | Erase Stroke bool string number
  | Cursor_move number number
  | Undo bool
  | Redo bool
  | Clear_canvas bool
  | Disconnect

fun handle :: "string \<Rightarrow> request \<Rightarrow> Server \<Rightarrow> Server \<times> effect list" where
  "handle socketId (Join_room roomIdArg callback rnd) s = on_join_room socketId roomIdArg callback rnd s"
| "handle socketId (Draw_line data ack) s = on_draw_line socketId data ack s"
| "handle socketId (Draw_finish data ack uuid now) s = on_draw_finish socketId data ack uuid now s"
| "handle socketId (Erase data ack uuid now) s = on_erase socketId data ack uuid now s"
| "handle socketId (Cursor_move px py) s = on_cursor_move socketId px py s"
| "handle socketId (Undo ack) s = on_undo socketId ack s"
| "handle socketId (Redo ack) s = on_redo socketId ack s"
| "handle socketId (Clear_canvas ack) s = on_clear_canvas socketId ack s"
| "handle socketId Disconnect s = on_disconnect socketId s"

section \<open>Sequences of log operations\<close>

text \<open>
  The five mutating methods of a \<^verbatim>\<open>HistoryStore\<close> as data, so that statements can
  range over every sequence of calls. \<open>appended\<close> is the action that a call creates.
\<close>

datatype log_op =
    Op_addStroke Stroke string number
  | Op_addErase Stroke string number
  | Op_undo
  | Op_redo
  | Op_clear

fun apply_log_op :: "log_op \<Rightarrow> HistoryStore \<Rightarrow> HistoryStore" where
  "apply_log_op (Op_addStroke stroke uuid now) hs = snd (addStroke stroke uuid now hs)"
| "apply_log_op (Op_addErase stroke uuid now) hs = snd (addErase stroke uuid now hs)"
| "apply_log_op Op_undo hs = snd (undo hs)"
| "apply_log_op Op_redo hs = snd (redo hs)"
| "apply_log_op Op_clear hs = clear hs"

fun run_log :: "log_op list \<Rightarrow> HistoryStore \<Rightarrow> HistoryStore" where
  "run_log [] hs = hs"
| "run_log (op # ops) hs = run_log ops (apply_log_op op hs)"

fun appended :: "log_op \<Rightarrow> DrawingAction list" where
  "appended (Op_addStroke stroke uuid now) = [fst (addStroke stroke uuid now new_HistoryStore)]"
| "appended (Op_addErase stroke uuid now) = [fst (addErase stroke uuid now new_HistoryStore)]"
| "appended Op_undo = []"
| "appended Op_redo = []"
| "appended Op_clear = []"

definition contents :: "HistoryStore \<Rightarrow> DrawingAction set" where
  "contents hs = set (history hs) \<union> set (redoStack hs)"

section \<open>Log operations scoped to a room\<close>

text \<open>
  What the handlers of \<^verbatim>\<open>draw_finish\<close>, \<^verbatim>\<open>erase\<close>, \<^verbatim>\<open>undo\<close>,
  \<^verbatim>\<open>redo\<close> and \<^verbatim>\<open>clear_canvas\<close> do to \<^verbatim>\<open>roomHistories\<close> for the room
  of the requesting connection. \<open>snapshot\<close> is the copy of the log that
  \<^verbatim>\<open>join_room\<close> sends: \<^verbatim>\<open>getHistoryStore(roomId).getHistory()\<close>.
\<close>

fun scoped :: "string \<Rightarrow> log_op \<Rightarrow> (string, HistoryStore) JsMap \<Rightarrow> (string, HistoryStore) JsMap" where
  "scoped roomId (Op_addStroke stroke uuid now) rh = snd (with_store roomId (addStroke stroke uuid now) rh)"
| "scoped roomId (Op_addErase stroke uuid now) rh = snd (with_store roomId (addErase stroke uuid now) rh)"
| "scoped roomId Op_undo rh = snd (with_store roomId undo rh)"
| "scoped roomId Op_redo rh = snd (with_store roomId redo rh)"
| "scoped roomId Op_clear rh = snd (with_store roomId (\<lambda>hs. ((), clear hs)) rh)"

fun run_scoped ::
    "(string \<times> log_op) list \<Rightarrow> (string, HistoryStore) JsMap \<Rightarrow> (string, HistoryStore) JsMap" where
  "run_scoped [] rh = rh"
| "run_scoped ((roomId, op) # ops) rh = run_scoped ops (scoped roomId op rh)"

fun isAppend :: "log_op \<Rightarrow> bool" where
  "isAppend (Op_addStroke stroke uuid now) = True"
| "isAppend (Op_addErase stroke uuid now) = True"
| "isAppend Op_undo = False"
| "isAppend Op_redo = False"
| "isAppend Op_clear = False"

definition store_of :: "(string, HistoryStore) JsMap \<Rightarrow> string \<Rightarrow> HistoryStore" where
  "store_of rh roomId = fst (getHistoryStore roomId rh)"

definition snapshot :: "string \<Rightarrow> (string, HistoryStore) JsMap \<Rightarrow> DrawingAction list" where
  "snapshot roomId rh = getHistory (fst (getHistoryStore roomId rh))"

section \<open>Sequences of registry calls and of requests\<close>

text \<open>
  The public mutating methods of \<^verbatim>\<open>RoomManager\<close> as data. A call of
  \<^verbatim>\<open>addUserToRoom\<close> that throws leaves the registry as it was.
  \<open>refs_live\<close>: every reference held by a map points to an allocated user object.
\<close>

datatype registry_op =
    R_createRoom string string
  | R_addUserToRoom string string "nat \<Rightarrow> number"
  | R_removeUser string
  | R_updateUserName string string

fun apply_registry_op :: "registry_op \<Rightarrow> RoomManager \<Rightarrow> RoomManager" where
  "apply_registry_op (R_createRoom roomId roomName) rm = snd (createRoom roomId roomName rm)"
| "apply_registry_op (R_addUserToRoom socketId roomId rnd) rm =
     (case addUserToRoom socketId roomId rnd rm of Inl e \<Rightarrow> rm | Inr (user, rm') \<Rightarrow> rm')"
| "apply_registry_op (R_removeUser socketId) rm = removeUser socketId rm"
| "apply_registry_op (R_updateUserName socketId name) rm = updateUserName socketId name rm"

fun run_registry :: "registry_op list \<Rightarrow> RoomManager \<Rightarrow> RoomManager" where
  "run_registry [] rm = rm"
| "run_registry (op # ops) rm = run_registry ops (apply_registry_op op rm)"

definition refs_live :: "RoomManager \<Rightarrow> bool" where
  "refs_live rm =
     ((\<forall>(socketId, r) \<in> set (socketToUser rm). r < length (heap rm)) \<and>
      (\<forall>(roomId, room) \<in> set (rooms rm).
         \<forall>(socketId, r) \<in> set (room_users room). r < length (heap rm)))"

text \<open>The server state after a sequence of requests, each from some socket.\<close>

fun run_server :: "(string \<times> request) list \<Rightarrow> Server \<Rightarrow> Server" where
  "run_server [] s = s"
| "run_server ((socketId, req) # reqs) s = run_server reqs (fst (handle socketId req s))"

text \<open>The requests that change a log: finished stroke, erase, undo, redo, clear.\<close>

fun structural :: "request \<Rightarrow> bool" where
  "structural (Draw_finish data ack uuid now) = True"
| "structural (Erase data ack uuid now) = True"
| "structural (Undo ack) = True"
| "structural (Redo ack) = True"
| "structural (Clear_canvas ack) = True"
| "structural (Join_room roomIdArg callback rnd) = False"
| "structural (Draw_line data ack) = False"
| "structural (Cursor_move px py) = False"
| "structural Disconnect = False"

definition isEmit :: "effect \<Rightarrow> bool" where
  "isEmit e = (case e of Emit t name p \<Rightarrow> True | _ \<Rightarrow> False)"

definition isAck :: "effect \<Rightarrow> bool" where
  "isAck e = (case e of Ack p \<Rightarrow> True | _ \<Rightarrow> False)"

section \<open>Example inputs\<close>

definition stroke_a :: Stroke where
  "stroke_a = \<lparr>stroke_id = ''s1'', stroke_userId = ''alice'', stroke_color = ''#000000'',
                stroke_width = 5, stroke_points = [(0, 0), (1, 1)], stroke_isFinished = True,
                stroke_timestamp = Some 2000\<rparr>"

definition stroke_b :: Stroke where
  "stroke_b = \<lparr>stroke_id = ''s2'', stroke_userId = ''bob'', stroke_color = ''#FF0000'',
                stroke_width = 5, stroke_points = [(3, 3), (4, 4)], stroke_isFinished = True,
                stroke_timestamp = Some 1000\<rparr>"

text \<open>
  \<open>log_ab\<close>: \<open>stroke_a\<close> is appended first, \<open>stroke_b\<close> second; the second
  stroke and the second action carry the earlier timestamps.
  \<open>log_ba\<close>: the same strokes appended in the order of their timestamps.
\<close>

definition log_ab :: HistoryStore where
  "log_ab = snd (addStroke stroke_b ''u2'' 1500 (snd (addStroke stroke_a ''u1'' 2500 new_HistoryStore)))"

definition log_ba :: HistoryStore where
  "log_ba = snd (addStroke stroke_a ''u1'' 2500 (snd (addStroke stroke_b ''u2'' 1500 new_HistoryStore)))"

text \<open>
  Every draw of \<^verbatim>\<open>Math.random()\<close> is 1/2 in \<open>rnd_half\<close>, which gives the colour
  \<open>#888888\<close>. \<open>server_ab\<close>: the sockets \<open>sockA\<close> and \<open>sockB\<close> have joined
  \<open>main\<close> on a fresh server. \<open>server_two_rooms\<close>: a fresh server whose registry
  has a second room, made by \<^verbatim>\<open>createRoom\<close>; in \<open>server_a_moved\<close> the socket
  \<open>sockA\<close> has joined \<open>main\<close> and then \<open>room2\<close> there.
\<close>

definition rnd_half :: "nat \<Rightarrow> number" where
  "rnd_half = (\<lambda>i. 1 / 2)"

definition user_a :: User where
  "user_a = \<lparr>user_id = ''sockA'', user_color = ''#888888'', user_name = ''User-sockA''\<rparr>"

definition user_b :: User where
  "user_b = \<lparr>user_id = ''sockB'', user_color = ''#888888'', user_name = ''User-sockB''\<rparr>"

definition server_a :: Server where
  "server_a = fst (on_join_room ''sockA'' (Some ''main'') True rnd_half initial_Server)"

definition server_ab :: Server where
  "server_ab = fst (on_join_room ''sockB'' None True rnd_half server_a)"

definition server_two_rooms :: Server where
  "server_two_rooms =
     initial_Server\<lparr>roomManager := snd (createRoom ''room2'' ''Room 2'' new_RoomManager)\<rparr>"

definition server_a_moved :: Server where
  "server_a_moved =
     fst (on_join_room ''sockA'' (Some ''room2'') True rnd_half
            (fst (on_join_room ''sockA'' (Some ''main'') True rnd_half server_two_rooms)))"

definition interleaved :: "(string \<times> log_op) list" where
  "interleaved =
     [(''roomA'', Op_addStroke stroke_a ''u1'' 10), (''roomB'', Op_addStroke stroke_b ''u2'' 20),
      (''roomA'', Op_addErase stroke_b ''u3'' 30), (''roomB'', Op_addStroke stroke_a ''u4'' 40),
      (''roomA'', Op_addStroke stroke_a ''u5'' 50)]"

section \<open>The action log: undo, redo, append\<close>

lemma contents_undo: "contents (snd (undo hs)) = contents hs"
  by (cases "history hs" rule: rev_cases) (auto simp: contents_def undo_def Let_def)

lemma contents_redo: "contents (snd (redo hs)) = contents hs"
  by (cases "redoStack hs" rule: rev_cases) (auto simp: contents_def redo_def Let_def)

lemma contents_apply_log_op: "contents (apply_log_op op hs) \<subseteq> contents hs \<union> set (appended op)"
  by (cases op)
     (simp_all add: contents_undo contents_redo,
      auto simp: contents_def addStroke_def addErase_def clear_def Let_def)

lemma contents_run_log:
  "contents (run_log ops hs) \<subseteq> contents hs \<union> set (concat (map appended ops))"
proof (induction ops arbitrary: hs)
  case Nil
  show ?case by simp
next
  case (Cons op ops)
  have "contents (run_log ops (apply_log_op op hs))
          \<subseteq> contents (apply_log_op op hs) \<union> set (concat (map appended ops))"
    by (rule Cons.IH)
  with contents_apply_log_op [of op hs] show ?case by auto
qed

lemma redo_empty_stack: "redoStack hs = [] \<Longrightarrow> redo hs = (history hs, hs)"
  by (simp add: redo_def)

text \<open>
  C5. On a log with at least one entry, \<open>undo\<close> followed at once by \<open>redo\<close> gives
  back the store as it was: the entries (also as the list that \<open>redo\<close> returns) and
  the redo stack. The restored action is the one \<open>undo\<close> moved to the redo stack,
  it is the last entry again, with the id and timestamp it had.
\<close>

theorem undo_redo_restores:
  assumes "history hs \<noteq> []"
  shows "fst (redo (snd (undo hs))) = history hs
       \<and> snd (redo (snd (undo hs))) = hs
       \<and> history (snd (undo hs)) = butlast (history hs)
       \<and> last (redoStack (snd (undo hs))) = last (history hs)
       \<and> action_id (last (fst (redo (snd (undo hs))))) = action_id (last (history hs))
       \<and> action_timestamp (last (fst (redo (snd (undo hs))))) = action_timestamp (last (history hs))"
  using assms by (simp add: undo_def redo_def Let_def)

theorem undo_redo_restores_witness:
  "history log_ab \<noteq> []
   \<and> fst (redo (snd (undo log_ab))) = history log_ab
   \<and> snd (redo (snd (undo log_ab))) = log_ab
   \<and> action_id (last (fst (redo (snd (undo log_ab))))) = ''u2''
   \<and> action_timestamp (last (fst (redo (snd (undo log_ab))))) = 1500"
proof -
  have ne: "history log_ab \<noteq> []"
    by (simp add: log_ab_def addStroke_def Let_def)
  have l: "last (history log_ab) = fst (addStroke stroke_b ''u2'' 1500 new_HistoryStore)"
    by (simp add: log_ab_def addStroke_def Let_def)
  show ?thesis
    using ne undo_redo_restores [OF ne] by (simp add: l addStroke_def Let_def)
qed

text \<open>
  C6. \<open>addStroke\<close> and \<open>addErase\<close> leave the redo stack empty, whatever it held.
  So after an undo and an append, \<open>redo\<close> changes nothing and returns the current
  entries. From then on, whatever sequence of calls follows, the entries and the
  redo stack hold only actions that are entries after that append or that a later
  append creates: the undone action is not brought back.
\<close>

theorem append_discards_redo:
  "redoStack (snd (addStroke stroke uuid now hs)) = []
   \<and> redoStack (snd (addErase stroke uuid now hs)) = []
   \<and> redo (snd (addStroke stroke uuid now (snd (undo hs))))
       = (history (snd (addStroke stroke uuid now (snd (undo hs)))),
          snd (addStroke stroke uuid now (snd (undo hs))))
   \<and> redo (snd (addErase stroke uuid now (snd (undo hs))))
       = (history (snd (addErase stroke uuid now (snd (undo hs)))),
          snd (addErase stroke uuid now (snd (undo hs))))
   \<and> history (snd (addStroke stroke uuid now (snd (undo hs))))
       = butlast (history hs) @ [fst (addStroke stroke uuid now (snd (undo hs)))]
   \<and> history (snd (addErase stroke uuid now (snd (undo hs))))
       = butlast (history hs) @ [fst (addErase stroke uuid now (snd (undo hs)))]
   \<and> contents (run_log ops (snd (addStroke stroke uuid now (snd (undo hs)))))
       \<subseteq> set (history (snd (addStroke stroke uuid now (snd (undo hs)))))
           \<union> set (concat (map appended ops))
   \<and> contents (run_log ops (snd (addErase stroke uuid now (snd (undo hs)))))
       \<subseteq> set (history (snd (addErase stroke uuid now (snd (undo hs)))))
           \<union> set (concat (map appended ops))"
proof -
  have r1: "redoStack (snd (addStroke stroke uuid now h)) = []" for h
    by (simp add: addStroke_def Let_def)
  have r2: "redoStack (snd (addErase stroke uuid now h)) = []" for h
    by (simp add: addErase_def Let_def)
  have h1: "history (snd (addStroke stroke uuid now (snd (undo hs))))
              = butlast (history hs) @ [fst (addStroke stroke uuid now (snd (undo hs)))]"
    by (cases "history hs" rule: rev_cases) (simp_all add: addStroke_def undo_def Let_def)
  have h2: "history (snd (addErase stroke uuid now (snd (undo hs))))
              = butlast (history hs) @ [fst (addErase stroke uuid now (snd (undo hs)))]"
    by (cases "history hs" rule: rev_cases) (simp_all add: addErase_def undo_def Let_def)
  have c1: "contents (run_log ops (snd (addStroke stroke uuid now (snd (undo hs)))))
              \<subseteq> set (history (snd (addStroke stroke uuid now (snd (undo hs)))))
                  \<union> set (concat (map appended ops))"
    using contents_run_log [of ops "snd (addStroke stroke uuid now (snd (undo hs)))"]
    by (simp add: contents_def r1)
  have c2: "contents (run_log ops (snd (addErase stroke uuid now (snd (undo hs)))))
              \<subseteq> set (history (snd (addErase stroke uuid now (snd (undo hs)))))
                  \<union> set (concat (map appended ops))"
    using contents_run_log [of ops "snd (addErase stroke uuid now (snd (undo hs)))"]
    by (simp add: contents_def r2)
  show ?thesis
    using r1 r2 h1 h2 c1 c2 by (simp add: redo_empty_stack)
qed

theorem append_discards_redo_witness:
  "redo (snd (addStroke stroke_a ''u3'' 3000 (snd (undo log_ab))))
     = (history (snd (addStroke stroke_a ''u3'' 3000 (snd (undo log_ab)))),
        snd (addStroke stroke_a ''u3'' 3000 (snd (undo log_ab))))
   \<and> map action_id (history (snd (addStroke stroke_a ''u3'' 3000 (snd (undo log_ab)))))
     = [''u1'', ''u3'']
   \<and> redoStack (snd (undo log_ab)) \<noteq> []"
proof -
  have u: "redoStack (snd (undo log_ab)) \<noteq> []"
    by (simp add: log_ab_def addStroke_def undo_def Let_def)
  have b: "map action_id (butlast (history log_ab)) = [''u1'']"
    by (simp add: log_ab_def addStroke_def new_HistoryStore_def Let_def)
  have i: "action_id (fst (addStroke stroke_a ''u3'' 3000 (snd (undo log_ab)))) = ''u3''"
    by (simp add: addStroke_def Let_def)
  show ?thesis
    using append_discards_redo [of stroke_a "''u3''" 3000 log_ab "[]"] u b i by simp
qed

section \<open>Replay order\<close>

lemma redrawAll_painted:
  "redrawAll hist cv =
     filter (\<lambda>(s, e). stroke_points s \<noteq> [])
       (map (\<lambda>a. (action_data a, action_type a = STROKE_ERASE)) (sortedActions hist))"
proof -
  have fold_eq:
    "foldl (\<lambda>c action. drawStroke (action_data action) (action_type action = STROKE_ERASE) c) c0 xs
       = c0 @ filter (\<lambda>(s, e). stroke_points s \<noteq> [])
                (map (\<lambda>a. (action_data a, action_type a = STROKE_ERASE)) xs)" for c0 xs
    by (induction xs arbitrary: c0) (auto simp: drawStroke_def)
  show ?thesis
    by (simp add: redrawAll_def canvas_clear_def fold_eq)
qed

text \<open>
  C1, as the code has it. The rebuild orders by timestamp, not by position in the log.
  \<open>getCurrentState\<close> returns the strokes of the draw and erase entries sorted by
  stroke timestamp (0 when absent): the result is sorted by that key, holds the same
  strokes as the log, and strokes of equal timestamp keep their log order. It is the
  log order when the stroke timestamps do not decrease along the log.
  \<open>redrawAll\<close> paints the draw and erase actions that have at least one point in
  the order of \<open>sortedActions\<close>, which is the same stable sort by the action timestamp.
\<close>

theorem replay_sorted_by_timestamp:
  "sorted (map stroke_time (getCurrentState hs))
   \<and> mset (getCurrentState hs) = mset (map action_data (filter isDrawOrErase (history hs)))
   \<and> (\<forall>t. filter (\<lambda>s. stroke_time s = t) (getCurrentState hs)
          = filter (\<lambda>s. stroke_time s = t) (map action_data (filter isDrawOrErase (history hs))))
   \<and> (sorted (map stroke_time (map action_data (filter isDrawOrErase (history hs))))
        \<longrightarrow> getCurrentState hs = map action_data (filter isDrawOrErase (history hs)))
   \<and> sorted (map action_time (sortedActions hist))
   \<and> mset (sortedActions hist) = mset (filter isDrawOrErase hist)
   \<and> (\<forall>t. filter (\<lambda>a. action_time a = t) (sortedActions hist)
          = filter (\<lambda>a. action_time a = t) (filter isDrawOrErase hist))
   \<and> (sorted (map action_time (filter isDrawOrErase hist))
        \<longrightarrow> sortedActions hist = filter isDrawOrErase hist)
   \<and> redrawAll hist cv =
       filter (\<lambda>(s, e). stroke_points s \<noteq> [])
         (map (\<lambda>a. (action_data a, action_type a = STROKE_ERASE)) (sortedActions hist))"
proof -
  have g1: "sorted (map stroke_time (getCurrentState hs))"
    by (simp add: getCurrentState_def)
  have g2: "mset (getCurrentState hs) = mset (map action_data (filter isDrawOrErase (history hs)))"
    by (simp add: getCurrentState_def)
  have g3: "filter (\<lambda>s. stroke_time s = t) (getCurrentState hs)
          = filter (\<lambda>s. stroke_time s = t) (map action_data (filter isDrawOrErase (history hs)))" for t
    by (simp add: getCurrentState_def sort_key_stable)
  have g4: "sorted (map stroke_time (map action_data (filter isDrawOrErase (history hs))))
        \<longrightarrow> getCurrentState hs = map action_data (filter isDrawOrErase (history hs))"
    by (simp add: getCurrentState_def sort_key_id_if_sorted)
  have a1: "sorted (map action_time (sortedActions hist))"
    by (simp add: sortedActions_def)
  have a2: "mset (sortedActions hist) = mset (filter isDrawOrErase hist)"
    by (simp add: sortedActions_def)
  have a3: "filter (\<lambda>a. action_time a = t) (sortedActions hist)
          = filter (\<lambda>a. action_time a = t) (filter isDrawOrErase hist)" for t
    by (simp only: sortedActions_def sort_key_stable)
  have a4: "sorted (map action_time (filter isDrawOrErase hist))
        \<longrightarrow> sortedActions hist = filter isDrawOrErase hist"
    by (simp add: sortedActions_def sort_key_id_if_sorted)
  show ?thesis
    using g1 g2 g3 g4 a1 a2 a3 a4 redrawAll_painted [of hist cv] by blast
qed

theorem replay_sorted_by_timestamp_witness:
  "sorted (map stroke_time (map action_data (filter isDrawOrErase (history log_ba))))
   \<and> getCurrentState log_ba = map action_data (filter isDrawOrErase (history log_ba))
   \<and> map action_data (history log_ba) = [stroke_b, stroke_a]
   \<and> sorted (map action_time (filter isDrawOrErase (history log_ba)))
   \<and> sortedActions (history log_ba) = filter isDrawOrErase (history log_ba)
   \<and> redrawAll (history log_ba) [] = [(stroke_b, False), (stroke_a, False)]"
proof -
  have h: "history log_ba =
             [fst (addStroke stroke_b ''u2'' 1500 new_HistoryStore),
              fst (addStroke stroke_a ''u1'' 2500 new_HistoryStore)]"
    by (simp add: log_ba_def addStroke_def new_HistoryStore_def Let_def)
  have f: "filter isDrawOrErase (history log_ba) = history log_ba"
    by (simp add: h isDrawOrErase_def addStroke_def Let_def)
  have d: "map action_data (history log_ba) = [stroke_b, stroke_a]"
    by (simp add: h addStroke_def Let_def)
  have s1: "sorted (map stroke_time (map action_data (filter isDrawOrErase (history log_ba))))"
    by (simp add: f d stroke_time_def stroke_a_def stroke_b_def)
  have s2: "sorted (map action_time (filter isDrawOrErase (history log_ba)))"
    by (simp add: f h action_time_def addStroke_def Let_def)
  have p: "stroke_points stroke_a \<noteq> [] \<and> stroke_points stroke_b \<noteq> []"
    by (simp add: stroke_a_def stroke_b_def)
  have t: "map (\<lambda>a. (action_data a, action_type a = STROKE_ERASE)) (history log_ba)
             = [(stroke_b, False), (stroke_a, False)]"
    by (simp add: h addStroke_def Let_def)
  from replay_sorted_by_timestamp [of log_ba "history log_ba" "[]"] s1 s2
  have "getCurrentState log_ba = map action_data (filter isDrawOrErase (history log_ba))"
    and sa: "sortedActions (history log_ba) = filter isDrawOrErase (history log_ba)"
    and "redrawAll (history log_ba) [] =
       filter (\<lambda>(s, e). stroke_points s \<noteq> [])
         (map (\<lambda>a. (action_data a, action_type a = STROKE_ERASE)) (sortedActions (history log_ba)))"
    by blast+
  then show ?thesis
    using s1 s2 d p by (simp add: f t)
qed

text \<open>
  The claim as stated fails on \<open>log_ab\<close>: \<open>stroke_a\<close> was appended before
  \<open>stroke_b\<close>, and both rebuilds present \<open>stroke_b\<close> first.
\<close>

theorem replay_assignment_order_counterexample:
  "map action_data (getHistory log_ab) = [stroke_a, stroke_b]
   \<and> getCurrentState log_ab = [stroke_b, stroke_a]
   \<and> redrawAll (getHistory log_ab) [] = [(stroke_b, False), (stroke_a, False)]"
  by (simp add: Let_def log_ab_def addStroke_def new_HistoryStore_def getCurrentState_def
        isDrawOrErase_def stroke_time_def stroke_a_def stroke_b_def redrawAll_def
        sortedActions_def getHistory_def canvas_clear_def drawStroke_def action_time_def)

section \<open>Map operations\<close>

lemma Map_get_set: "Map_get (Map_set m k v) k' = (if k = k' then Some v else Map_get m k')"
  by (induction m) auto

lemma set_Map_set: "set (Map_set m k v) \<subseteq> insert (k, v) (set m)"
  by (induction m) (auto split: if_splits)

lemma set_Map_delete: "set (Map_delete m k) \<subseteq> set m"
  by (induction m) (auto split: if_splits)

lemma Map_get_in_set: "Map_get m k = Some v \<Longrightarrow> (k, v) \<in> set m"
  by (induction m) (auto split: if_splits)

lemma keys_Map_set_present: "Map_get m k = Some v \<Longrightarrow> map fst (Map_set m k v') = map fst m"
  by (induction m) (auto split: if_splits)

lemma Map_get_None_iff: "Map_get m k = None \<longleftrightarrow> k \<notin> set (map fst m)"
  by (induction m) (auto split: if_splits)

section \<open>Isolation of the logs\<close>

lemma store_of_alt:
  "store_of rh r = (case Map_get rh r of None \<Rightarrow> new_HistoryStore | Some h \<Rightarrow> h)"
  by (simp add: store_of_def getHistoryStore_def Map_has_def Let_def Map_get_set
           split: option.splits)

lemma with_store_snd:
  "snd (with_store r m rh) = Map_set (snd (getHistoryStore r rh)) r (snd (m (store_of rh r)))"
  by (simp add: with_store_def store_of_def Let_def split: prod.splits)

lemma scoped_alt:
  "scoped r op rh = Map_set (snd (getHistoryStore r rh)) r (apply_log_op op (store_of rh r))"
  by (cases op) (simp_all add: with_store_snd)

lemma store_of_scoped:
  "store_of (scoped A op rh) B = (if A = B then apply_log_op op (store_of rh A) else store_of rh B)"
  by (simp add: scoped_alt store_of_alt Map_get_set getHistoryStore_def Map_has_def Let_def)

lemma store_of_run_scoped:
  "store_of (run_scoped ops rh) B
     = run_log (map snd (filter (\<lambda>(r, op). r = B) ops)) (store_of rh B)"
proof (induction ops arbitrary: rh)
  case Nil
  show ?case by simp
next
  case (Cons p ops)
  obtain r op where p: "p = (r, op)" by (cases p)
  show ?case by (simp add: p Cons.IH store_of_scoped)
qed

lemma length_run_log_appends:
  "\<forall>op \<in> set ops. isAppend op \<Longrightarrow>
     length (history (run_log ops hs)) = length (history hs) + length ops"
proof (induction ops arbitrary: hs)
  case Nil
  show ?case by simp
next
  case (Cons op ops)
  then have a: "isAppend op" and r: "\<forall>op \<in> set ops. isAppend op" by simp_all
  have "length (history (apply_log_op op hs)) = length (history hs) + 1"
    using a by (cases op) (simp_all add: addStroke_def addErase_def Let_def)
  with Cons.IH [OF r, of "apply_log_op op hs"] show ?case by simp
qed

lemma snapshot_store: "snapshot r rh = history (store_of rh r)"
  by (simp add: snapshot_def store_of_def getHistory_def)

lemma snapshot_appends:
  assumes "\<forall>(r, op) \<in> set ops. isAppend op"
  shows "length (snapshot A (run_scoped ops rh))
           = length (snapshot A rh) + length (filter (\<lambda>(r, op). r = A) ops)"
proof -
  have "\<forall>op \<in> set (map snd (filter (\<lambda>(r, op). r = A) ops)). isAppend op"
    using assms by auto
  from length_run_log_appends [OF this] show ?thesis
    by (simp add: snapshot_store store_of_run_scoped)
qed

lemma snapshot_initial: "snapshot A (roomHistories initial_Server) = []"
  by (simp add: snapshot_store store_of_alt initial_Server_def new_HistoryStore_def
           split: option.splits)

text \<open>The handlers change \<open>roomHistories\<close> by the scoped operation of their room, and nothing else of the state.\<close>

lemma handlers_scoped:
  assumes "currentRoomId s socketId = Some room" "room \<noteq> []"
  shows "fst (on_draw_finish socketId data ack uuid now s)
           = s\<lparr>roomHistories := scoped room (Op_addStroke data uuid now) (roomHistories s)\<rparr>"
    and "fst (on_erase socketId data ack uuid now s)
           = s\<lparr>roomHistories := scoped room (Op_addErase data uuid now) (roomHistories s)\<rparr>"
    and "fst (on_undo socketId ack s) = s\<lparr>roomHistories := scoped room Op_undo (roomHistories s)\<rparr>"
    and "fst (on_redo socketId ack s) = s\<lparr>roomHistories := scoped room Op_redo (roomHistories s)\<rparr>"
    and "fst (on_clear_canvas socketId ack s)
           = s\<lparr>roomHistories := scoped room Op_clear (roomHistories s)\<rparr>"
  using assms
  by (simp_all add: on_draw_finish_def on_erase_def on_undo_def on_redo_def on_clear_canvas_def
        truthy_def split: prod.splits)

text \<open>
  C7. Take any interleaving \<open>ops\<close> of appends, each scoped to some room, and two
  different rooms \<open>A\<close> and \<open>B\<close>. The snapshot of each room grows by the number of
  appends scoped to it, so on a fresh server it has exactly that length, whatever
  the order. For operations of every kind (\<open>ops'\<close>, \<open>op\<close>): an operation scoped
  to one room leaves the store of the other as it was, and the snapshot of a room
  is what the operations scoped to that room alone produce.
\<close>

theorem session_isolation:
  assumes "A \<noteq> B" and "\<forall>(r, op) \<in> set ops. isAppend op"
  shows "length (snapshot A (run_scoped ops rh))
           = length (snapshot A rh) + length (filter (\<lambda>(r, op). r = A) ops)
       \<and> length (snapshot B (run_scoped ops rh))
           = length (snapshot B rh) + length (filter (\<lambda>(r, op). r = B) ops)
       \<and> length (snapshot A (run_scoped ops (roomHistories initial_Server)))
           = length (filter (\<lambda>(r, op). r = A) ops)
       \<and> length (snapshot B (run_scoped ops (roomHistories initial_Server)))
           = length (filter (\<lambda>(r, op). r = B) ops)
       \<and> store_of (scoped A op rh) B = store_of rh B
       \<and> store_of (scoped B op rh) A = store_of rh A
       \<and> snapshot A (run_scoped ops' rh) = snapshot A (run_scoped (filter (\<lambda>(r, op). r = A) ops') rh)
       \<and> snapshot B (run_scoped ops' rh) = snapshot B (run_scoped (filter (\<lambda>(r, op). r = B) ops') rh)"
proof -
  have f: "snapshot R (run_scoped ops' rh) = snapshot R (run_scoped (filter (\<lambda>(r, op). r = R) ops') rh)"
    for R
    by (simp add: snapshot_store store_of_run_scoped)
  show ?thesis
    using assms(1) snapshot_appends [OF assms(2)] f [of A] f [of B]
    by (simp add: snapshot_initial store_of_scoped)
qed

theorem session_isolation_witness:
  "''roomA'' \<noteq> ''roomB''
   \<and> list_all (\<lambda>(r, op). isAppend op) interleaved
   \<and> length (snapshot ''roomA'' (run_scoped interleaved (roomHistories initial_Server))) = 3
   \<and> length (snapshot ''roomB'' (run_scoped interleaved (roomHistories initial_Server))) = 2"
proof -
  have a: "\<forall>(r, op) \<in> set interleaved. isAppend op"
    by (simp add: interleaved_def)
  have n: "''roomA'' \<noteq> ''roomB''" by simp
  have c: "length (filter (\<lambda>(r, op). r = ''roomA'') interleaved) = 3
         \<and> length (filter (\<lambda>(r, op). r = ''roomB'') interleaved) = 2"
    by (simp add: interleaved_def)
  have l: "list_all (\<lambda>(r, op). isAppend op) interleaved"
    by (simp add: interleaved_def)
  show ?thesis
    using session_isolation [OF n a, of "roomHistories initial_Server" Op_undo "[]"] c l
    by (simp add: snapshot_initial)
qed

section \<open>The registry: users and their colours\<close>

lemma color_loop_concat:
  "i \<le> 6 \<Longrightarrow>
     color_loop rnd i color = color @ concat (map (\<lambda>j. letter_at \<lfloor>rnd j * 16\<rfloor>) [i..<6])"
proof (induction rnd i color rule: color_loop.induct)
  case (1 rnd i color)
  show ?case
  proof (cases "i < 6")
    case True
    then have "color_loop rnd i color = color_loop rnd (i + 1) (color @ letter_at \<lfloor>rnd i * 16\<rfloor>)"
      by (simp add: color_loop.simps [of rnd i])
    also have "\<dots> = (color @ letter_at \<lfloor>rnd i * 16\<rfloor>)
                     @ concat (map (\<lambda>j. letter_at \<lfloor>rnd j * 16\<rfloor>) [i + 1..<6])"
      using True by (intro "1.IH") simp_all
    also have "\<dots> = color @ concat (map (\<lambda>j. letter_at \<lfloor>rnd j * 16\<rfloor>) [i..<6])"
      using True by (simp add: upt_conv_Cons)
    finally show ?thesis .
  next
    case False
    with "1.prems" have "i = 6" by simp
    then show ?thesis by (simp add: color_loop.simps [of rnd 6])
  qed
qed

lemma letter_at_unit:
  fixes r :: real
  assumes "0 \<le> r" "r < 1"
  shows "\<exists>c \<in> set letters. letter_at \<lfloor>r * 16\<rfloor> = [c]"
proof -
  have "0 \<le> \<lfloor>r * 16\<rfloor>" using assms by simp
  moreover have "\<lfloor>r * 16\<rfloor> < 16" using assms by (simp add: floor_less_iff)
  moreover have "length letters = 16" by (simp add: letters_def)
  ultimately show ?thesis
    by (simp add: letter_at_def nat_less_iff)
qed

lemma generateRandomColor_shape:
  assumes "\<forall>i<6. 0 \<le> rnd i \<and> rnd i < 1"
  shows "length (generateRandomColor rnd) = 7
       \<and> hd (generateRandomColor rnd) = CHR ''#''
       \<and> set (tl (generateRandomColor rnd)) \<subseteq> set letters"
proof -
  have g: "generateRandomColor rnd = ''#'' @ concat (map (\<lambda>j. letter_at \<lfloor>rnd j * 16\<rfloor>) [0..<6])"
    by (simp add: generateRandomColor_def color_loop_concat)
  have each: "\<forall>j \<in> set [0..<6]. \<exists>c \<in> set letters. letter_at \<lfloor>rnd j * 16\<rfloor> = [c]"
    using assms letter_at_unit by auto
  have gen: "(\<forall>j \<in> set js. \<exists>c \<in> set letters. f j = [c]) \<Longrightarrow>
               length (concat (map f js)) = length js \<and> set (concat (map f js)) \<subseteq> set letters"
    for f :: "nat \<Rightarrow> string" and js
    by (induction js) auto
  from gen [OF each] show ?thesis by (simp add: g)
qed

lemma color_half: "generateRandomColor rnd_half = ''#888888''"
  by (simp add: generateRandomColor_def color_loop_concat rnd_half_def letter_at_def
        letters_def upt_rec)

text \<open>
  C9. When the room exists and the six draws of \<^verbatim>\<open>Math.random()\<close> lie in
  \<open>[0, 1)\<close>, \<open>addUserToRoom\<close> returns a user object, registered for the socket,
  whose id is the socket id, whose name is \<open>User-\<close> followed by the first five
  characters of the socket id, and whose colour has seven characters: \<open>#\<close> and
  then six of \<open>0123456789ABCDEF\<close>.
\<close>

theorem addUserToRoom_user:
  assumes "getRoom rm roomId = Some room" and "\<forall>i<6. 0 \<le> rnd i \<and> rnd i < 1"
  shows "case addUserToRoom socketId roomId rnd rm of
           Inl e \<Rightarrow> False
         | Inr (r, rm') \<Rightarrow>
             getUser rm' socketId = Some (heap rm' ! r)
           \<and> user_id (heap rm' ! r) = socketId
           \<and> user_name (heap rm' ! r) = ''User-'' @ take 5 socketId
           \<and> length (user_color (heap rm' ! r)) = 7
           \<and> hd (user_color (heap rm' ! r)) = CHR ''#''
           \<and> set (tl (user_color (heap rm' ! r))) \<subseteq> set ''0123456789ABCDEF''"
  using assms(1) generateRandomColor_shape [OF assms(2)]
  by (simp add: addUserToRoom_def Let_def getUser_def Map_get_set letters_def)

theorem addUserToRoom_user_witness:
  "getRoom new_RoomManager ''main'' \<noteq> None
   \<and> list_all (\<lambda>i. 0 \<le> rnd_half i \<and> rnd_half i < 1) [0, 1, 2, 3, 4, 5]
   \<and> (case addUserToRoom ''sockA1234'' ''main'' rnd_half new_RoomManager of
         Inl e \<Rightarrow> False
       | Inr (r, rm') \<Rightarrow>
           heap rm' ! r = \<lparr>user_id = ''sockA1234'', user_color = ''#888888'',
                            user_name = ''User-sockA''\<rparr>
         \<and> length (user_color (heap rm' ! r)) = 7)"
proof -
  have g: "getRoom new_RoomManager ''main''
             = Some \<lparr>room_id = ''main'', room_name = ''Main Canvas'', room_users = [],
                     room_history = [], room_historyIndex = 0\<rparr>"
    by (simp add: getRoom_def new_RoomManager_def createRoom_def Let_def)
  have d: "\<forall>i<6. 0 \<le> rnd_half i \<and> rnd_half i < 1"
    by (simp add: rnd_half_def)
  have l: "list_all (\<lambda>i. 0 \<le> rnd_half i \<and> rnd_half i < 1) [0, 1, 2, 3, 4, 5]"
    by (simp add: rnd_half_def)
  show ?thesis
    using addUserToRoom_user [OF g d, of "''sockA1234''"] g l
    by (simp add: addUserToRoom_def Let_def color_half split: sum.splits prod.splits)
qed

section \<open>The registry: references stay live\<close>

lemma refs_live_new: "refs_live new_RoomManager"
  by (simp add: refs_live_def new_RoomManager_def createRoom_def Let_def)

lemma refs_live_createRoom: "refs_live rm \<Longrightarrow> refs_live (snd (createRoom roomId roomName rm))"
  using set_Map_set by (fastforce simp: refs_live_def createRoom_def Let_def)

lemma refs_live_addUserToRoom:
  assumes "refs_live rm" "addUserToRoom socketId roomId rnd rm = Inr (r, rm')"
  shows "refs_live rm'"
proof -
  from assms(2) obtain room where g: "Map_get (rooms rm) roomId = Some room"
    by (auto simp: addUserToRoom_def getRoom_def split: option.splits)
  have rin: "(roomId, room) \<in> set (rooms rm)" using g by (rule Map_get_in_set)
  define room' where
    "room' = room\<lparr>room_users := Map_set (room_users room) socketId (length (heap rm))\<rparr>"
  have rm': "rm' = rm\<lparr>rooms := Map_set (rooms rm) roomId room',
                        userToRoom := Map_set (userToRoom rm) socketId roomId,
                        socketToUser := Map_set (socketToUser rm) socketId (length (heap rm)),
                        heap := heap rm @ [\<lparr>user_id = socketId,
                                            user_color = generateRandomColor rnd,
                                            user_name = ''User-'' @ take 5 socketId\<rparr>]\<rparr>"
    using assms(2) g by (auto simp: addUserToRoom_def getRoom_def Let_def room'_def)
  have a: "\<forall>(s, q) \<in> set (socketToUser rm'). q < length (heap rm')"
    using assms(1) set_Map_set [of "socketToUser rm" socketId "length (heap rm)"]
    by (fastforce simp: rm' refs_live_def)
  have u': "\<forall>(s, q) \<in> set (room_users room'). q < length (heap rm')"
    using assms(1) rin set_Map_set [of "room_users room" socketId "length (heap rm)"]
    by (fastforce simp: rm' refs_live_def room'_def)
  have b: "\<forall>(rid, rr) \<in> set (rooms rm'). \<forall>(s, q) \<in> set (room_users rr). q < length (heap rm')"
  proof (clarify)
    fix rid rr s q
    assume 1: "(rid, rr) \<in> set (rooms rm')" and 2: "(s, q) \<in> set (room_users rr)"
    from 1 have "(rid, rr) = (roomId, room') \<or> (rid, rr) \<in> set (rooms rm)"
      using set_Map_set [of "rooms rm" roomId room'] by (auto simp: rm')
    then show "q < length (heap rm')"
    proof
      assume "(rid, rr) = (roomId, room')"
      with u' 2 show ?thesis by auto
    next
      assume "(rid, rr) \<in> set (rooms rm)"
      with assms(1) 2 have "q < length (heap rm)" by (fastforce simp: refs_live_def)
      then show ?thesis by (simp add: rm')
    qed
  qed
  from a b show ?thesis by (simp add: refs_live_def)
qed

lemma refs_live_shrink:
  assumes "refs_live rm" "length (heap rm) \<le> length (heap rm')"
    and "set (socketToUser rm') \<subseteq> set (socketToUser rm)"
    and "\<forall>(rid, rr) \<in> set (rooms rm').
           \<exists>(rid0, rr0) \<in> set (rooms rm). set (room_users rr) \<subseteq> set (room_users rr0)"
  shows "refs_live rm'"
  unfolding refs_live_def
proof (intro conjI; clarify)
  fix s q
  assume "(s, q) \<in> set (socketToUser rm')"
  with assms(3) have "(s, q) \<in> set (socketToUser rm)" by auto
  with assms(1) have "q < length (heap rm)" by (auto simp: refs_live_def)
  with assms(2) show "q < length (heap rm')" by simp
next
  fix rid rr s q
  assume 1: "(rid, rr) \<in> set (rooms rm')" and 2: "(s, q) \<in> set (room_users rr)"
  from assms(4) 1 obtain rid0 rr0
    where 3: "(rid0, rr0) \<in> set (rooms rm)"
      and 4: "set (room_users rr) \<subseteq> set (room_users rr0)"
    by fastforce
  from 2 4 have "(s, q) \<in> set (room_users rr0)" by auto
  with assms(1) 3 have "q < length (heap rm)" by (fastforce simp: refs_live_def)
  with assms(2) show "q < length (heap rm')" by simp
qed

lemma removeUser_fields:
  "heap (removeUser socketId rm) = heap rm
   \<and> socketToUser (removeUser socketId rm) = Map_delete (socketToUser rm) socketId
   \<and> (rooms (removeUser socketId rm) = rooms rm
       \<or> (\<exists>rid room. Map_get (rooms rm) rid = Some room
            \<and> rooms (removeUser socketId rm)
                = Map_set (rooms rm) rid
                    (room\<lparr>room_users := Map_delete (room_users room) socketId\<rparr>)))"
  by (auto simp: removeUser_def Let_def getRoom_def split: option.splits)

lemma refs_live_removeUser:
  assumes live: "refs_live rm"
  shows "refs_live (removeUser socketId rm)"
proof -
  let ?rm' = "removeUser socketId rm"
  have h: "length (heap rm) \<le> length (heap ?rm')" by (simp add: removeUser_fields)
  have s: "set (socketToUser ?rm') \<subseteq> set (socketToUser rm)"
    by (simp add: removeUser_fields set_Map_delete)
  have r: "\<forall>(rid, rr) \<in> set (rooms ?rm').
             \<exists>(rid0, rr0) \<in> set (rooms rm). set (room_users rr) \<subseteq> set (room_users rr0)"
  proof (clarify)
    fix rid rr
    assume mem: "(rid, rr) \<in> set (rooms ?rm')"
    from removeUser_fields [of socketId rm]
    consider (same) "rooms ?rm' = rooms rm"
      | (changed) k room where "Map_get (rooms rm) k = Some room"
          "rooms ?rm' = Map_set (rooms rm) k
                          (room\<lparr>room_users := Map_delete (room_users room) socketId\<rparr>)"
      by blast
    then show "\<exists>(rid0, rr0) \<in> set (rooms rm). set (room_users rr) \<subseteq> set (room_users rr0)"
    proof cases
      case same
      with mem show ?thesis by auto
    next
      case changed
      from changed(1) have kin: "(k, room) \<in> set (rooms rm)" by (rule Map_get_in_set)
      from mem changed(2)
      have "(rid, rr) = (k, room\<lparr>room_users := Map_delete (room_users room) socketId\<rparr>)
              \<or> (rid, rr) \<in> set (rooms rm)"
        using set_Map_set [of "rooms rm" k
                "room\<lparr>room_users := Map_delete (room_users room) socketId\<rparr>"]
        by auto
      then show ?thesis
      proof
        assume "(rid, rr) = (k, room\<lparr>room_users := Map_delete (room_users room) socketId\<rparr>)"
        then have "set (room_users rr) \<subseteq> set (room_users room)"
          by (simp add: set_Map_delete)
        with kin show ?thesis by auto
      next
        assume "(rid, rr) \<in> set (rooms rm)"
        then show ?thesis by auto
      qed
    qed
  qed
  from live h s r show ?thesis by (rule refs_live_shrink)
qed

lemma refs_live_updateUserName: "refs_live rm \<Longrightarrow> refs_live (updateUserName socketId name rm)"
  by (auto simp: refs_live_def updateUserName_def split: option.splits)

lemma refs_live_apply: "refs_live rm \<Longrightarrow> refs_live (apply_registry_op op rm)"
  by (cases op)
     (auto simp: refs_live_createRoom refs_live_removeUser refs_live_updateUserName
           intro: refs_live_addUserToRoom split: sum.splits)

lemma refs_live_run: "refs_live rm \<Longrightarrow> refs_live (run_registry ops rm)"
  by (induction ops arbitrary: rm) (simp_all add: refs_live_apply)

lemma updateUserName_known:
  assumes "refs_live rm" "Map_get (socketToUser rm) socketId = Some r"
  shows "r < length (heap rm)
       \<and> heap (updateUserName socketId name rm) ! r = (heap rm ! r)\<lparr>user_name := name\<rparr>
       \<and> (\<forall>q. q \<noteq> r \<longrightarrow> heap (updateUserName socketId name rm) ! q = heap rm ! q)"
proof -
  from assms(2) have "(socketId, r) \<in> set (socketToUser rm)" by (rule Map_get_in_set)
  with assms(1) have "r < length (heap rm)" by (auto simp: refs_live_def)
  then show ?thesis using assms(2) by (simp add: updateUserName_def)
qed

text \<open>
  C10. Let \<open>rm\<close> be any registry reached from the constructor by calls of its
  methods. \<open>updateUserName\<close> leaves the room map (every room's member map and
  history), \<open>userToRoom\<close> and \<open>socketToUser\<close> as they are and allocates nothing.
  For an unknown socket the registry is unchanged. For a registered socket the one
  user object it refers to gets the new name and keeps its id and colour, and every
  other user object is unchanged.
\<close>

theorem updateUserName_frame:
  "rooms (updateUserName socketId name (run_registry ops new_RoomManager))
     = rooms (run_registry ops new_RoomManager)
   \<and> userToRoom (updateUserName socketId name (run_registry ops new_RoomManager))
     = userToRoom (run_registry ops new_RoomManager)
   \<and> socketToUser (updateUserName socketId name (run_registry ops new_RoomManager))
     = socketToUser (run_registry ops new_RoomManager)
   \<and> length (heap (updateUserName socketId name (run_registry ops new_RoomManager)))
     = length (heap (run_registry ops new_RoomManager))
   \<and> (case Map_get (socketToUser (run_registry ops new_RoomManager)) socketId of
         None \<Rightarrow>
           updateUserName socketId name (run_registry ops new_RoomManager)
             = run_registry ops new_RoomManager
       | Some r \<Rightarrow>
           r < length (heap (run_registry ops new_RoomManager))
         \<and> user_name (heap (updateUserName socketId name (run_registry ops new_RoomManager)) ! r)
             = name
         \<and> user_id (heap (updateUserName socketId name (run_registry ops new_RoomManager)) ! r)
             = user_id (heap (run_registry ops new_RoomManager) ! r)
         \<and> user_color (heap (updateUserName socketId name (run_registry ops new_RoomManager)) ! r)
             = user_color (heap (run_registry ops new_RoomManager) ! r)
         \<and> (\<forall>q. q \<noteq> r \<longrightarrow>
               heap (updateUserName socketId name (run_registry ops new_RoomManager)) ! q
                 = heap (run_registry ops new_RoomManager) ! q))"
proof -
  define rm where "rm = run_registry ops new_RoomManager"
  have live: "refs_live rm"
    unfolding rm_def by (rule refs_live_run [OF refs_live_new])
  have frame: "rooms (updateUserName socketId name rm) = rooms rm
             \<and> userToRoom (updateUserName socketId name rm) = userToRoom rm
             \<and> socketToUser (updateUserName socketId name rm) = socketToUser rm
             \<and> length (heap (updateUserName socketId name rm)) = length (heap rm)"
    by (simp add: updateUserName_def split: option.splits)
  have rest: "case Map_get (socketToUser rm) socketId of
                None \<Rightarrow> updateUserName socketId name rm = rm
              | Some r \<Rightarrow>
                  r < length (heap rm)
                \<and> user_name (heap (updateUserName socketId name rm) ! r) = name
                \<and> user_id (heap (updateUserName socketId name rm) ! r) = user_id (heap rm ! r)
                \<and> user_color (heap (updateUserName socketId name rm) ! r) = user_color (heap rm ! r)
                \<and> (\<forall>q. q \<noteq> r \<longrightarrow> heap (updateUserName socketId name rm) ! q = heap rm ! q)"
  proof (cases "Map_get (socketToUser rm) socketId")
    case None
    then show ?thesis by (simp add: updateUserName_def)
  next
    case (Some r)
    from updateUserName_known [OF live Some, of name] Some show ?thesis by simp
  qed
  from frame rest show ?thesis unfolding rm_def by blast
qed

theorem updateUserName_frame_witness:
  "Map_get (socketToUser (run_registry [R_addUserToRoom ''sockA'' ''main'' rnd_half,
                                         R_addUserToRoom ''sockB'' ''main'' rnd_half]
                            new_RoomManager)) ''sockA'' = Some 0
   \<and> heap (updateUserName ''sockA'' ''Alice''
             (run_registry [R_addUserToRoom ''sockA'' ''main'' rnd_half,
                            R_addUserToRoom ''sockB'' ''main'' rnd_half] new_RoomManager))
       = [user_a\<lparr>user_name := ''Alice''\<rparr>, user_b]
   \<and> getUsersInRoom (updateUserName ''sockA'' ''Alice''
             (run_registry [R_addUserToRoom ''sockA'' ''main'' rnd_half,
                            R_addUserToRoom ''sockB'' ''main'' rnd_half] new_RoomManager)) ''main''
       = [user_a\<lparr>user_name := ''Alice''\<rparr>, user_b]
   \<and> rooms (updateUserName ''sockA'' ''Alice''
             (run_registry [R_addUserToRoom ''sockA'' ''main'' rnd_half,
                            R_addUserToRoom ''sockB'' ''main'' rnd_half] new_RoomManager))
       = rooms (run_registry [R_addUserToRoom ''sockA'' ''main'' rnd_half,
                              R_addUserToRoom ''sockB'' ''main'' rnd_half] new_RoomManager)"
proof -
  define rm where
    "rm = run_registry [R_addUserToRoom ''sockA'' ''main'' rnd_half,
                        R_addUserToRoom ''sockB'' ''main'' rnd_half] new_RoomManager"
  have v: "rm = \<lparr>rooms = [(''main'', \<lparr>room_id = ''main'', room_name = ''Main Canvas'',
                                     room_users = [(''sockA'', 0), (''sockB'', 1)],
                                     room_history = [], room_historyIndex = 0\<rparr>)],
                 userToRoom = [(''sockA'', ''main''), (''sockB'', ''main'')],
                 socketToUser = [(''sockA'', 0), (''sockB'', 1)],
                 heap = [user_a, user_b]\<rparr>"
    by (simp add: rm_def addUserToRoom_def getRoom_def new_RoomManager_def createRoom_def
          Let_def color_half user_a_def user_b_def)
  have g: "Map_get (socketToUser rm) ''sockA'' = Some 0"
    by (simp add: v)
  from updateUserName_frame [of "''sockA''" "''Alice''"
         "[R_addUserToRoom ''sockA'' ''main'' rnd_half, R_addUserToRoom ''sockB'' ''main'' rnd_half]"]
  have f: "rooms (updateUserName ''sockA'' ''Alice'' rm) = rooms rm"
    and n: "length (heap (updateUserName ''sockA'' ''Alice'' rm)) = length (heap rm)"
    and a: "user_name (heap (updateUserName ''sockA'' ''Alice'' rm) ! 0) = ''Alice''"
    and i: "user_id (heap (updateUserName ''sockA'' ''Alice'' rm) ! 0) = user_id (heap rm ! 0)"
    and c: "user_color (heap (updateUserName ''sockA'' ''Alice'' rm) ! 0) = user_color (heap rm ! 0)"
    and o: "heap (updateUserName ''sockA'' ''Alice'' rm) ! 1 = heap rm ! 1"
    unfolding rm_def [symmetric] by (simp_all add: g)
  have h0: "heap (updateUserName ''sockA'' ''Alice'' rm) ! 0 = user_a\<lparr>user_name := ''Alice''\<rparr>"
    using a i c by (simp add: v user_a_def)
  have h1: "heap (updateUserName ''sockA'' ''Alice'' rm) ! 1 = user_b"
    using o by (simp add: v)
  have n2: "length (heap (updateUserName ''sockA'' ''Alice'' rm)) = 2"
    using n by (simp add: v)
  have h: "heap (updateUserName ''sockA'' ''Alice'' rm) = [user_a\<lparr>user_name := ''Alice''\<rparr>, user_b]"
    using n2 h0 h1 by (auto simp: list_eq_iff_nth_eq less_Suc_eq numeral_2_eq_2)
  have r: "rooms (updateUserName ''sockA'' ''Alice'' rm) = rooms rm"
    by (rule f)
  have rr: "rooms rm = [(''main'', \<lparr>room_id = ''main'', room_name = ''Main Canvas'',
                                     room_users = [(''sockA'', 0), (''sockB'', 1)],
                                     room_history = [], room_historyIndex = 0\<rparr>)]"
    by (simp add: v)
  have u: "getUsersInRoom (updateUserName ''sockA'' ''Alice'' rm) ''main''
             = [user_a\<lparr>user_name := ''Alice''\<rparr>, user_b]"
    by (simp add: getUsersInRoom_def getRoom_def r rr h Map_values_def)
  show ?thesis
    unfolding rm_def [symmetric] using g h u r by simp
qed

section \<open>The example server states\<close>

lemma roomManager_server_a:
  "roomManager server_a =
     \<lparr>rooms = [(''main'', \<lparr>room_id = ''main'', room_name = ''Main Canvas'',
                           room_users = [(''sockA'', 0)],
                           room_history = [], room_historyIndex = 0\<rparr>)],
      userToRoom = [(''sockA'', ''main'')], socketToUser = [(''sockA'', 0)], heap = [user_a]\<rparr>"
  by (simp add: server_a_def on_join_room_def initial_Server_def new_RoomManager_def createRoom_def
        addUserToRoom_def getRoom_def getHistoryStore_def Map_has_def truthy_def Let_def
        color_half user_a_def)

lemma roomHistories_server_a: "roomHistories server_a = [(''main'', new_HistoryStore)]"
  by (simp add: server_a_def on_join_room_def initial_Server_def new_RoomManager_def createRoom_def
        addUserToRoom_def getRoom_def getHistoryStore_def Map_has_def truthy_def Let_def)

lemma currentRoomId_server_a:
  "currentRoomId server_a = (\<lambda>socketId. None)(''sockA'' := Some ''main'')"
  by (simp add: server_a_def on_join_room_def initial_Server_def new_RoomManager_def createRoom_def
        addUserToRoom_def getRoom_def getHistoryStore_def Map_has_def truthy_def Let_def)

lemmas join_defs =
  on_join_room_def addUserToRoom_def getRoom_def getHistoryStore_def Map_has_def truthy_def
  Let_def getRoomIdForUser_def getUsersInRoom_def Map_values_def getHistory_def ack_call_def

lemma roomManager_server_ab:
  "roomManager server_ab =
     \<lparr>rooms = [(''main'', \<lparr>room_id = ''main'', room_name = ''Main Canvas'',
                           room_users = [(''sockA'', 0), (''sockB'', 1)],
                           room_history = [], room_historyIndex = 0\<rparr>)],
      userToRoom = [(''sockA'', ''main''), (''sockB'', ''main'')],
      socketToUser = [(''sockA'', 0), (''sockB'', 1)], heap = [user_a, user_b]\<rparr>"
  by (simp add: server_ab_def join_defs roomManager_server_a roomHistories_server_a
        currentRoomId_server_a color_half user_b_def)

lemma roomHistories_server_ab: "roomHistories server_ab = [(''main'', new_HistoryStore)]"
  by (simp add: server_ab_def join_defs roomManager_server_a roomHistories_server_a
        currentRoomId_server_a)

lemma currentRoomId_server_ab:
  "currentRoomId server_ab
     = (\<lambda>socketId. None)(''sockA'' := Some ''main'', ''sockB'' := Some ''main'')"
  by (simp add: server_ab_def join_defs roomManager_server_a roomHistories_server_a
        currentRoomId_server_a)

lemma roomManager_server_a_moved:
  "roomManager server_a_moved =
     \<lparr>rooms = [(''main'', \<lparr>room_id = ''main'', room_name = ''Main Canvas'',
                           room_users = [(''sockA'', 0)],
                           room_history = [], room_historyIndex = 0\<rparr>),
               (''room2'', \<lparr>room_id = ''room2'', room_name = ''Room 2'',
                            room_users = [(''sockA'', 1)],
                            room_history = [], room_historyIndex = 0\<rparr>)],
      userToRoom = [(''sockA'', ''room2'')], socketToUser = [(''sockA'', 1)],
      heap = [user_a, user_a]\<rparr>"
  by (simp add: server_a_moved_def server_two_rooms_def initial_Server_def new_RoomManager_def
        createRoom_def join_defs color_half user_a_def)

lemma currentRoomId_server_a_moved: "currentRoomId server_a_moved ''sockA'' = Some ''room2''"
  by (simp add: server_a_moved_def server_two_rooms_def initial_Server_def new_RoomManager_def
        createRoom_def join_defs)

section \<open>Joining a room\<close>

lemma keys_addUserToRoom:
  "addUserToRoom socketId roomId rnd rm = Inr (r, rm') \<Longrightarrow>
     map fst (rooms rm') = map fst (rooms rm)"
  by (auto simp: addUserToRoom_def getRoom_def Let_def keys_Map_set_present split: option.splits)

lemma keys_removeUser: "map fst (rooms (removeUser socketId rm)) = map fst (rooms rm)"
  using removeUser_fields [of socketId rm] by (auto simp: keys_Map_set_present)

lemma keys_handle:
  "map fst (rooms (roomManager (fst (handle socketId req s)))) = map fst (rooms (roomManager s))"
proof (cases req)
  case (Join_room roomIdArg callback rnd)
  show ?thesis
    by (auto simp: Join_room on_join_room_def Let_def keys_addUserToRoom
             split: sum.splits error.splits prod.splits)
next
  case Disconnect
  show ?thesis
    by (simp add: Disconnect on_disconnect_def Let_def keys_removeUser)
qed (simp_all add: on_draw_line_def on_draw_finish_def on_erase_def on_cursor_move_def
       on_undo_def on_redo_def on_clear_canvas_def Let_def split: prod.splits option.splits)

text \<open>
  The server creates the room \<open>main\<close> when it starts and no handler creates a
  room: whatever requests arrive, \<open>main\<close> is the only room of the registry, and a
  request to join any other room is answered with the error message and changes nothing.
\<close>

lemma rooms_only_main:
  "map fst (rooms (roomManager (run_server reqs initial_Server))) = [''main'']"
proof -
  have "map fst (rooms (roomManager (run_server reqs s))) = map fst (rooms (roomManager s))" for s
  proof (induction reqs arbitrary: s)
    case Nil
    show ?case by simp
  next
    case (Cons p reqs)
    obtain socketId req where p: "p = (socketId, req)" by (cases p)
    show ?case by (simp add: p Cons.IH keys_handle)
  qed
  then show ?thesis
    by (simp add: initial_Server_def new_RoomManager_def createRoom_def Let_def)
qed

lemma join_other_room_fails:
  assumes "roomId \<noteq> ''main''"
  shows "fst (on_join_room socketId (Some roomId) callback rnd (run_server reqs initial_Server))
           = run_server reqs initial_Server
       \<and> (callback \<longrightarrow>
            last (snd (on_join_room socketId (Some roomId) callback rnd
                         (run_server reqs initial_Server)))
              = Ack (P_message (''Room '' @ roomId @ '' not found'')))"
proof -
  have "getRoom (roomManager (run_server reqs initial_Server)) roomId = None"
    using assms by (simp add: getRoom_def Map_get_None_iff rooms_only_main)
  then show ?thesis
    by (simp add: on_join_room_def addUserToRoom_def Let_def ack_call_def)
qed

text \<open>
  C2, evaluated. On a fresh server the first join of \<open>main\<close> registers the member
  and sends the empty log and a roster of that member alone. The first join of
  any other room id, here \<open>room2\<close>, does not create the room: the handler
  catches \<open>Room room2 not found\<close>, passes the message to the callback, and the
  server state is as before, without the member.
\<close>

theorem join_unknown_room_rejected:
  "snd (on_join_room ''sockA'' (Some ''main'') True rnd_half initial_Server)
     = [Join ''main'', Console LOG, Emit Socket ''history_sync'' (P_history []),
        Emit (Room ''main'') ''users_update'' (P_users [user_a]), Ack P_none]
   \<and> on_join_room ''sockA'' (Some ''room2'') True rnd_half initial_Server
     = (initial_Server, [Console ERROR, Ack (P_message ''Room room2 not found'')])
   \<and> getUsersInRoom (roomManager initial_Server) ''room2'' = []
   \<and> getUser (roomManager initial_Server) ''sockA'' = None"
  by (simp add: initial_Server_def new_RoomManager_def createRoom_def join_defs new_HistoryStore_def
        getUser_def color_half user_a_def)

text \<open>
  C4, evaluated. The handler of \<^verbatim>\<open>join_room\<close> calls \<^verbatim>\<open>socket.leave\<close> for the
  previous room and sends that room its roster, but never calls \<open>removeUser\<close>.
  In \<open>server_a_moved\<close> the socket \<open>sockA\<close> joined \<open>main\<close> and then
  \<open>room2\<close>: it is in the rosters of both rooms, \<open>userToRoom\<close> names only
  \<open>room2\<close>, and after its disconnect it is still in the roster of \<open>main\<close>.
  On the server with the single room \<open>main\<close>, when \<open>sockA\<close> joins again the
  roster sent to the room it leaves still lists \<open>sockA\<close>, and its entry in the
  member map is overwritten where it stands, ahead of \<open>sockB\<close>, not removed and added.
\<close>

theorem rejoin_keeps_previous_membership:
  "map user_id (getUsersInRoom (roomManager server_a_moved) ''main'') = [''sockA'']
   \<and> map user_id (getUsersInRoom (roomManager server_a_moved) ''room2'') = [''sockA'']
   \<and> getRoomIdForUser (roomManager server_a_moved) ''sockA'' = Some ''room2''
   \<and> map user_id (getUsersInRoom (roomManager (fst (on_disconnect ''sockA'' server_a_moved))) ''main'')
       = [''sockA'']
   \<and> take 2 (snd (on_join_room ''sockA'' (Some ''main'') True rnd_half server_ab))
       = [Leave ''main'', Emit (Room ''main'') ''users_update'' (P_users [user_a, user_b])]
   \<and> map user_id (getUsersInRoom
         (roomManager (fst (on_join_room ''sockA'' (Some ''main'') True rnd_half server_ab))) ''main'')
       = [''sockA'', ''sockB'']"
proof -
  have m: "map user_id (getUsersInRoom (roomManager server_a_moved) ''main'') = [''sockA'']
         \<and> map user_id (getUsersInRoom (roomManager server_a_moved) ''room2'') = [''sockA'']
         \<and> getRoomIdForUser (roomManager server_a_moved) ''sockA'' = Some ''room2''"
    by (simp add: roomManager_server_a_moved getUsersInRoom_def getRoom_def Map_values_def
          getRoomIdForUser_def user_a_def)
  have d: "map user_id (getUsersInRoom (roomManager (fst (on_disconnect ''sockA'' server_a_moved)))
             ''main'') = [''sockA'']"
    by (simp add: on_disconnect_def currentRoomId_server_a_moved truthy_def Let_def
          roomManager_server_a_moved removeUser_def getUsersInRoom_def getRoom_def
          Map_values_def user_a_def)
  have j: "take 2 (snd (on_join_room ''sockA'' (Some ''main'') True rnd_half server_ab))
             = [Leave ''main'', Emit (Room ''main'') ''users_update'' (P_users [user_a, user_b])]"
    by (simp add: join_defs roomManager_server_ab roomHistories_server_ab currentRoomId_server_ab
          split: prod.splits)
  have k: "map user_id (getUsersInRoom
             (roomManager (fst (on_join_room ''sockA'' (Some ''main'') True rnd_half server_ab)))
             ''main'') = [''sockA'', ''sockB'']"
    by (simp add: join_defs roomManager_server_ab roomHistories_server_ab currentRoomId_server_ab
          user_b_def split: prod.splits)
  from m d j k show ?thesis by simp
qed

section \<open>Finished strokes and erasers\<close>

text \<open>
  C3, as the code has it. For a connection joined to \<open>room\<close>, the handler of
  \<^verbatim>\<open>draw_finish\<close> appends the draw action to the log of that room, empties its
  redo stack, and calls the acknowledgement if there is one; it emits nothing, to
  nobody. The handler of \<^verbatim>\<open>erase\<close> appends the erase action and emits
  \<open>erase\<close> with the stroke to the other sockets of the room, then acknowledges.
\<close>

theorem draw_finish_stored_not_broadcast:
  assumes "currentRoomId s socketId = Some room" and "room \<noteq> []"
  shows "snd (on_draw_finish socketId data ack uuid now s) = (if ack then [Ack P_none] else [])
       \<and> snapshot room (roomHistories (fst (on_draw_finish socketId data ack uuid now s)))
           = snapshot room (roomHistories s)
             @ [\<lparr>action_id = uuid, action_type = STROKE_DRAW, action_userId = stroke_userId data,
                  action_timestamp = now, action_data = data\<rparr>]
       \<and> redoStack (store_of (roomHistories (fst (on_draw_finish socketId data ack uuid now s))) room)
           = []
       \<and> snd (on_erase socketId data ack uuid now s)
           = Emit (Broadcast room) ''erase'' (P_stroke data) # (if ack then [Ack P_none] else [])
       \<and> snapshot room (roomHistories (fst (on_erase socketId data ack uuid now s)))
           = snapshot room (roomHistories s)
             @ [\<lparr>action_id = uuid, action_type = STROKE_ERASE, action_userId = stroke_userId data,
                  action_timestamp = now, action_data = data\<rparr>]"
proof -
  have e1: "snd (on_draw_finish socketId data ack uuid now s) = (if ack then [Ack P_none] else [])"
    using assms by (simp add: on_draw_finish_def truthy_def ack_call_def split: prod.splits)
  have e2: "snd (on_erase socketId data ack uuid now s)
              = Emit (Broadcast room) ''erase'' (P_stroke data) # (if ack then [Ack P_none] else [])"
    using assms by (simp add: on_erase_def truthy_def ack_call_def split: prod.splits)
  have h1: "snapshot room (roomHistories (fst (on_draw_finish socketId data ack uuid now s)))
              = snapshot room (roomHistories s)
                @ [\<lparr>action_id = uuid, action_type = STROKE_DRAW, action_userId = stroke_userId data,
                     action_timestamp = now, action_data = data\<rparr>]"
    by (simp add: handlers_scoped(1) [OF assms] store_of_scoped addStroke_def Let_def
          snapshot_store del: scoped.simps)
  have h2: "snapshot room (roomHistories (fst (on_erase socketId data ack uuid now s)))
              = snapshot room (roomHistories s)
                @ [\<lparr>action_id = uuid, action_type = STROKE_ERASE, action_userId = stroke_userId data,
                     action_timestamp = now, action_data = data\<rparr>]"
    by (simp add: handlers_scoped(2) [OF assms] store_of_scoped addErase_def Let_def
          snapshot_store del: scoped.simps)
  have r1: "redoStack (store_of (roomHistories (fst (on_draw_finish socketId data ack uuid now s))) room)
              = []"
    by (simp add: handlers_scoped(1) [OF assms] store_of_scoped addStroke_def Let_def
          del: scoped.simps)
  from e1 e2 h1 h2 r1 show ?thesis by simp
qed

theorem draw_finish_stored_not_broadcast_witness:
  "currentRoomId server_ab ''sockA'' = Some ''main''
   \<and> snd (on_draw_finish ''sockA'' stroke_a True ''u1'' 2500 server_ab) = [Ack P_none]
   \<and> map action_id (snapshot ''main''
        (roomHistories (fst (on_draw_finish ''sockA'' stroke_a True ''u1'' 2500 server_ab))))
       = [''u1'']
   \<and> snd (on_erase ''sockA'' stroke_a True ''u1'' 2500 server_ab)
       = [Emit (Broadcast ''main'') ''erase'' (P_stroke stroke_a), Ack P_none]"
proof -
  have c: "currentRoomId server_ab ''sockA'' = Some ''main''"
    by (simp add: currentRoomId_server_ab)
  have n: "''main'' \<noteq> []" by simp
  have e: "snapshot ''main'' (roomHistories server_ab) = []"
    by (simp add: snapshot_store store_of_alt roomHistories_server_ab new_HistoryStore_def)
  show ?thesis
    using draw_finish_stored_not_broadcast [OF c n, of stroke_a True "''u1''" 2500] c e by simp
qed

text \<open>
  The claim as stated fails on \<open>server_ab\<close>: \<open>sockA\<close> and \<open>sockB\<close> are both
  members of \<open>main\<close>, \<open>sockA\<close> finishes a stroke, and the only effect of the
  handler is the acknowledgement to \<open>sockA\<close>; nothing is emitted to \<open>sockB\<close>.
\<close>

theorem draw_finish_not_delivered_counterexample:
  "currentRoomId server_ab ''sockA'' = Some ''main''
   \<and> currentRoomId server_ab ''sockB'' = Some ''main''
   \<and> getUsersInRoom (roomManager server_ab) ''main'' = [user_a, user_b]
   \<and> snd (on_draw_finish ''sockA'' stroke_a True ''u1'' 2500 server_ab) = [Ack P_none]
   \<and> \<not> list_ex isEmit (snd (on_draw_finish ''sockA'' stroke_a True ''u1'' 2500 server_ab))"
  by (simp add: on_draw_finish_def currentRoomId_server_ab roomHistories_server_ab
        roomManager_server_ab truthy_def ack_call_def getUsersInRoom_def getRoom_def
        Map_values_def isEmit_def split: prod.splits)

section \<open>Requests from a connection that has not joined\<close>

text \<open>
  C8, as the code has it. A finished stroke, erase, undo, redo or clear from a
  connection whose \<^verbatim>\<open>currentRoomId\<close> is not set makes the handler return at once:
  the whole server state, so the entries and the redo stack of every room, is
  unchanged, and the handler does nothing to the outside: no event, no
  acknowledgement, no error to the caller, no console output.
\<close>

theorem unjoined_structural_ignored:
  assumes "\<not> truthy (currentRoomId s socketId)" and "structural req"
  shows "handle socketId req s = (s, [])"
  using assms
  by (cases req)
     (simp_all add: on_draw_finish_def on_erase_def on_undo_def on_redo_def on_clear_canvas_def)

theorem unjoined_structural_ignored_witness:
  "\<not> truthy (currentRoomId initial_Server ''sockZ'')
   \<and> structural (Erase stroke_a True ''u1'' 2500)
   \<and> handle ''sockZ'' (Erase stroke_a True ''u1'' 2500) initial_Server = (initial_Server, [])"
proof -
  have t: "\<not> truthy (currentRoomId initial_Server ''sockZ'')"
    by (simp add: initial_Server_def truthy_def)
  have r: "structural (Erase stroke_a True ''u1'' 2500)" by simp
  show ?thesis
    using unjoined_structural_ignored [OF t r] t by simp
qed

text \<open>
  The claim as stated fails on a fresh server: \<open>sockZ\<close> has not joined, sends a
  finished stroke and an undo, each with an acknowledgement callback, and the
  handlers answer with nothing at all, so no error reaches the caller.
\<close>

theorem unjoined_request_no_error_counterexample:
  "currentRoomId initial_Server ''sockZ'' = None
   \<and> snd (handle ''sockZ'' (Draw_finish stroke_a True ''u1'' 2500) initial_Server) = []
   \<and> snd (handle ''sockZ'' (Undo True) initial_Server) = []
   \<and> \<not> list_ex isAck (snd (handle ''sockZ'' (Draw_finish stroke_a True ''u1'' 2500) initial_Server))
   \<and> \<not> list_ex isEmit (snd (handle ''sockZ'' (Draw_finish stroke_a True ''u1'' 2500) initial_Server))"
  by (simp add: initial_Server_def on_draw_finish_def on_undo_def truthy_def)

end
